theory Spec2Isabelle
  imports Complex_Main
begin

section \<open>Optogenetic cell-motility simulator: the physics core of microscope_sim.py\<close>

text \<open>
  The embedding follows \<^verbatim>\<open>microscope_sim.py\<close>: the helpers \<^verbatim>\<open>wrap\<close> and
  \<^verbatim>\<open>polygon_area\<close>, the class \<^verbatim>\<open>Cell\<close> with \<^verbatim>\<open>stimulate\<close>, \<^verbatim>\<open>update\<close>,
  \<^verbatim>\<open>collide\<close>, \<^verbatim>\<open>_rel_pts\<close> and \<^verbatim>\<open>_conserve_area\<close>, and the physics part of
  \<^verbatim>\<open>MicroscopeSim.get_frame\<close>. Drawing and the image filter are not modelled.

  Conventions. Python floats and NumPy float64 values are real numbers here, so rounding,
  overflow and NaN do not exist in the model. A NumPy array of floats is a list. An
  exception raised by the source is a value \<open>Inl e\<close>. The shared \<^verbatim>\<open>random.Random\<close>
  generator is an explicit state of type \<open>'g\<close> that every operation reading it
  takes and returns; its primitive draws are parameters (a record of functions), since
  the generator is Python library code.
\<close>

subsection \<open>Errors\<close>

datatype error = IndexError | ValueError | OverflowError

subsection \<open>The random generator\<close>

text \<open>
  The three primitives of \<^verbatim>\<open>random.Random\<close> the program reaches: \<^verbatim>\<open>random()\<close>, a float
  in \<open>[0,1)\<close>; the standard normal deviate that \<^verbatim>\<open>normalvariate\<close> computes before it
  scales it; and \<^verbatim>\<open>_randbelow(n)\<close>, an integer below \<open>n\<close>. \<open>rnd_seed\<close> is
  \<^verbatim>\<open>random.Random(seed)\<close>.
\<close>

record 'g rng_ops =
  rnd_random :: "'g \<Rightarrow> real \<times> 'g"
  rnd_std_normal :: "'g \<Rightarrow> real \<times> 'g"
  rnd_randbelow :: "nat \<Rightarrow> 'g \<Rightarrow> nat \<times> 'g"
  rnd_seed :: "int \<Rightarrow> 'g"

text \<open>\<^verbatim>\<open>uniform(a, b)\<close> is \<^verbatim>\<open>a + (b - a) * self.random()\<close>.\<close>

definition uniform :: "'g rng_ops \<Rightarrow> real \<Rightarrow> real \<Rightarrow> 'g \<Rightarrow> real \<times> 'g" where
  "uniform ops a b g = (let (u, g') = rnd_random ops g in (a + (b - a) * u, g'))"

text \<open>\<^verbatim>\<open>normalvariate(mu, sigma)\<close> returns \<^verbatim>\<open>mu + z * sigma\<close> for a standard normal \<open>z\<close>.\<close>

definition normalvariate :: "'g rng_ops \<Rightarrow> real \<Rightarrow> real \<Rightarrow> 'g \<Rightarrow> real \<times> 'g" where
  "normalvariate ops mu sigma g = (let (z, g') = rnd_std_normal ops g in (mu + z * sigma, g'))"

text \<open>
  \<^verbatim>\<open>randint(a, b)\<close> is \<^verbatim>\<open>randrange(a, b + 1)\<close>, that is \<^verbatim>\<open>a + _randbelow(b + 1 - a)\<close>; the
  program calls it with \<open>a = 1\<close>, \<open>b = 3\<close> only, so the empty-range error is not reached.
\<close>

definition randint :: "'g rng_ops \<Rightarrow> int \<Rightarrow> int \<Rightarrow> 'g \<Rightarrow> int \<times> 'g" where
  "randint ops a b g = (let (n, g') = rnd_randbelow ops (nat (b + 1 - a)) g in (a + int n, g'))"

text \<open>What the library promises of the primitives.\<close>

definition rng_ok :: "'g rng_ops \<Rightarrow> bool" where
  "rng_ok ops \<longleftrightarrow>
     (\<forall>g. 0 \<le> fst (rnd_random ops g) \<and> fst (rnd_random ops g) < 1) \<and>
     (\<forall>n g. 0 < n \<longrightarrow> fst (rnd_randbelow ops n g) < n)"

text \<open>
  A scripted generator for concrete runs: the state is the list of outcomes still to come,
  each primitive takes the next one (and 0 once the script is used up). Every seed stands
  for the same script: three draws for one cell's constructor and five for its first
  \<open>update\<close>.
\<close>

definition script_next :: "real list \<Rightarrow> real \<times> real list" where
  "script_next g = (case g of [] \<Rightarrow> (0, []) | x # xs \<Rightarrow> (x, xs))"

definition script_rng :: "real list rng_ops" where
  "script_rng =
     \<lparr> rnd_random = (\<lambda>g. let (x, g') = script_next g in (\<bar>x\<bar> - of_int \<lfloor>\<bar>x\<bar>\<rfloor>, g')),
       rnd_std_normal = script_next,
       rnd_randbelow = (\<lambda>n g. let (x, g') = script_next g in (nat \<lfloor>\<bar>x\<bar>\<rfloor> mod n, g')),
       rnd_seed = (\<lambda>seed. [1/2, 1/2, 1/2, 0, 0, 2, 0, 0]) \<rparr>"

subsection \<open>Helpers\<close>

type_synonym vec2 = "real \<times> real"

text \<open>
  Python's \<^verbatim>\<open>%\<close> on floats: the result has the sign of the divisor,
  \<open>x - m * floor (x / m)\<close>. For \<open>m = 0\<close> NumPy yields NaN, which the model does not have;
  the theorems about \<open>wrap\<close> take the field dimensions positive.
\<close>

definition py_mod :: "real \<Rightarrow> real \<Rightarrow> real" where
  "py_mod x m = x - m * of_int \<lfloor>x / m\<rfloor>"

definition wrap :: "vec2 \<Rightarrow> int \<Rightarrow> int \<Rightarrow> vec2" where
  "wrap pos width height = (py_mod (fst pos) (of_int width), py_mod (snd pos) (of_int height))"

text \<open>\<^verbatim>\<open>round(x)\<close> on a float: to the nearest integer, a tie to the even one.\<close>

definition py_round :: "real \<Rightarrow> int" where
  "py_round x =
     (let f = \<lfloor>x\<rfloor>; d = x - of_int f
      in if d < 1/2 then f else if 1/2 < d then f + 1 else if even f then f else f + 1)"

text \<open>\<^verbatim>\<open>x @ y\<close> on two vectors, \<^verbatim>\<open>np.roll(x, -1)\<close> and \<^verbatim>\<open>np.roll(x, 1)\<close>.\<close>

definition dot :: "real list \<Rightarrow> real list \<Rightarrow> real" where
  "dot xs ys = sum_list (map2 (*) xs ys)"

definition roll_left :: "'a list \<Rightarrow> 'a list" where
  "roll_left xs = rotate1 xs"

definition roll_right :: "'a list \<Rightarrow> 'a list" where
  "roll_right xs = (if xs = [] then [] else last xs # butlast xs)"

text \<open>
  \<^verbatim>\<open>polygon_area\<close>: the signed shoelace area. On the empty point list \<^verbatim>\<open>np.asarray\<close> gives a
  one-dimensional array and \<^verbatim>\<open>pts[:, 0]\<close> raises IndexError.
\<close>

definition polygon_area :: "vec2 list \<Rightarrow> error + real" where
  "polygon_area pts =
     (if pts = [] then Inl IndexError
      else let x = map fst pts; y = map snd pts
           in Inr (0.5 * (dot x (roll_left y) - dot y (roll_left x))))"

text \<open>\<^verbatim>\<open>np.clip(r, lo, hi)\<close> is \<^verbatim>\<open>minimum(maximum(r, lo), hi)\<close>.\<close>

definition clip :: "real list \<Rightarrow> real \<Rightarrow> real \<Rightarrow> real list" where
  "clip xs lo hi = map (\<lambda>x. min (max x lo) hi) xs"

text \<open>Boolean-mask indexing \<^verbatim>\<open>xs[keep]\<close> and \<^verbatim>\<open>keep.any()\<close>.\<close>

definition select :: "bool list \<Rightarrow> 'a list \<Rightarrow> 'a list" where
  "select keep xs = map snd (filter fst (zip keep xs))"

definition any_true :: "bool list \<Rightarrow> bool" where
  "any_true bs = list_ex (\<lambda>b. b) bs"

text \<open>Python's \<^verbatim>\<open>max\<close> on a non-empty sequence (the callers check for emptiness).\<close>

fun max_list :: "real list \<Rightarrow> real" where
  "max_list [] = 0"
| "max_list [x] = x"
| "max_list (x # y # ys) = max x (max_list (y # ys))"

definition mean :: "real list \<Rightarrow> real" where
  "mean xs = sum_list xs / real (length xs)"

subsection \<open>The stimulation mask\<close>

text \<open>
  A two-dimensional Boolean array of shape \<open>(nrows, ncols)\<close>; \<open>pixel m iy ix\<close> is
  \<^verbatim>\<open>mask[iy, ix]\<close> for indices inside the shape.
\<close>

record mask =
  nrows :: nat
  ncols :: nat
  pixel :: "nat \<Rightarrow> nat \<Rightarrow> bool"

definition mask_any :: "mask \<Rightarrow> bool" where
  "mask_any m = list_ex (\<lambda>iy. list_ex (\<lambda>ix. pixel m iy ix) [0..<ncols m]) [0..<nrows m]"

subsection \<open>Cell\<close>

record cell =
  width :: int
  height :: int
  base_r :: real
  r :: "real list"
  angles :: "real list"
  area0 :: real
  vel :: vec2
  vertices :: nat
  friction :: real
  brownian_d :: real
  curvature_relax :: real
  radial_relax :: real
  protrusion_gain :: real
  impulse :: real
  ruffle_std :: real
  center :: vec2

text \<open>
  \<^verbatim>\<open>Cell.__init__\<close>: one draw for the base radius, then two for the centre.
  \<^verbatim>\<open>np.linspace(0, 2 * pi, vertices, endpoint=False)\<close> is \<open>i * (2 * pi / vertices)\<close> for
  \<open>i < vertices\<close>.
\<close>

definition Cell_init ::
  "'g rng_ops \<Rightarrow> int \<Rightarrow> int \<Rightarrow> real \<Rightarrow> nat \<Rightarrow> real \<Rightarrow> real \<Rightarrow> real \<Rightarrow> real \<Rightarrow> real \<Rightarrow> real \<Rightarrow> real
     \<Rightarrow> 'g \<Rightarrow> cell \<times> 'g" where
  "Cell_init ops w h base_radius n fric bd crelax rrelax pgain imp rstd g =
     (let (u, g1) = rnd_random ops g;
          b = base_radius * (0.85 + 0.3 * u);
          (cx, g2) = uniform ops 0 (of_int w) g1;
          (cy, g3) = uniform ops 0 (of_int h) g2
      in (\<lparr> width = w, height = h, base_r = b, r = replicate n b,
             angles = map (\<lambda>i. real i * (2 * pi / real n)) [0..<n],
             area0 = pi * b\<^sup>2, vel = (0, 0), vertices = n, friction = fric,
             brownian_d = bd, curvature_relax = crelax, radial_relax = rrelax,
             protrusion_gain = pgain, impulse = imp, ruffle_std = rstd,
             center = (cx, cy) \<rparr>, g3))"

text \<open>\<^verbatim>\<open>_rel_pts\<close>: the vertices relative to the centre.\<close>

definition rel_pts :: "cell \<Rightarrow> vec2 list" where
  "rel_pts c = zip (map2 (\<lambda>a x. cos a * x) (angles c) (r c))
                   (map2 (\<lambda>a x. sin a * x) (angles c) (r c))"

text \<open>The absolute vertex positions, as \<^verbatim>\<open>_conserve_area\<close> and \<^verbatim>\<open>draw\<close> build them.\<close>

definition abs_pts :: "cell \<Rightarrow> vec2 list" where
  "abs_pts c = map (\<lambda>(x, y). (x + fst (center c), y + snd (center c))) (rel_pts c)"

text \<open>
  \<^verbatim>\<open>_conserve_area\<close>: rescale every radius by \<open>sqrt (area0 / area)\<close> unless the area is
  zero. \<^verbatim>\<open>math.sqrt\<close> raises ValueError on a negative argument.
\<close>

definition conserve_area :: "cell \<Rightarrow> error + cell" where
  "conserve_area c =
     (case polygon_area (abs_pts c) of
        Inl e \<Rightarrow> Inl e
      | Inr a \<Rightarrow>
          let area = \<bar>a\<bar>
          in if area \<noteq> 0
             then (if area0 c / area < 0 then Inl ValueError
                   else Inr (c\<lparr>r := map (\<lambda>x. x * sqrt (area0 c / area)) (r c)\<rparr>))
             else Inr c)"

text \<open>
  \<^verbatim>\<open>stimulate\<close>. \<open>vx\<close>, \<open>vy\<close> are the absolute vertex coordinates, \<open>inside\<close> marks the
  vertices on the screen. On those, \<^verbatim>\<open>astype(int)\<close> truncates a non-negative float, so the
  pixel index is the floor. \<^verbatim>\<open>mask[iy, ix]\<close> raises IndexError when an index is not below
  the mask's shape. \<open>idx\<close> is \<^verbatim>\<open>np.nonzero(inside)[0][hit]\<close>. The method never reads
  \<^verbatim>\<open>self.rng\<close>; the generator state is passed through.
\<close>

definition stimulate :: "mask \<Rightarrow> cell \<times> 'g \<Rightarrow> error + cell \<times> 'g" where
  "stimulate m cg =
     (let c = fst cg; g = snd cg;
          vx = map2 (\<lambda>a x. fst (center c) + cos a * x) (angles c) (r c);
          vy = map2 (\<lambda>a x. snd (center c) + sin a * x) (angles c) (r c);
          inside = map2 (\<lambda>x y. 0 \<le> x \<and> x < of_int (width c) \<and> 0 \<le> y \<and> y < of_int (height c))
                     vx vy
      in if \<not> any_true inside then Inr (c, g)
         else
           let ix = map (\<lambda>x. nat \<lfloor>x\<rfloor>) (select inside vx);
               iy = map (\<lambda>y. nat \<lfloor>y\<rfloor>) (select inside vy)
           in if list_ex (\<lambda>i. nrows m \<le> i) iy \<or> list_ex (\<lambda>i. ncols m \<le> i) ix
              then Inl IndexError
              else
                let hit = map2 (pixel m) iy ix
                in if \<not> any_true hit then Inr (c, g)
                   else
                     let idx = select hit (select inside [0..<length inside]);
                         r1 = map2 (\<lambda>i x. if i \<in> set idx
                                            then x + protrusion_gain c * base_r c else x)
                                [0..<length (r c)] (r c);
                         r2 = clip r1 (0.4 * base_r c) (2.2 * base_r c)
                     in case conserve_area (c\<lparr>r := r2\<rparr>) of
                          Inl e \<Rightarrow> Inl e
                        | Inr c1 \<Rightarrow>
                            let tgt = (mean (map (\<lambda>i. vx ! i) idx), mean (map (\<lambda>i. vy ! i) idx));
                                vec = (fst tgt - fst (center c1), snd tgt - snd (center c1));
                                n = sqrt ((fst vec)\<^sup>2 + (snd vec)\<^sup>2)
                            in if n \<noteq> 0
                               then Inr (c1\<lparr>vel := (fst (vel c1) + fst vec / n * impulse c1,
                                                    snd (vel c1) + snd vec / n * impulse c1)\<rparr>, g)
                               else Inr (c1, g))"

text \<open>
  \<^verbatim>\<open>update\<close>, in three parts that follow the body in order. \<open>drift\<close> is lines 98 to 103:
  the Brownian kick, the move, the wrap and the friction. \<^verbatim>\<open>math.sqrt\<close> raises ValueError
  on a negative argument, before anything is drawn.
\<close>

definition drift :: "'g rng_ops \<Rightarrow> real \<Rightarrow> cell \<times> 'g \<Rightarrow> error + cell \<times> 'g" where
  "drift ops dt cg =
     (let c = fst cg; g = snd cg
      in if 2 * brownian_d c * dt < 0 then Inl ValueError
         else
           let (amp, g1) = normalvariate ops 0 (sqrt (2 * brownian_d c * dt)) g;
               (ang, g2) = uniform ops 0 (2 * pi) g1;
               v1 = (fst (vel c) + amp * cos ang, snd (vel c) + amp * sin ang);
               p1 = (fst (center c) + fst v1 * dt, snd (center c) + snd v1 * dt);
               p2 = wrap p1 (width c) (height c);
               f = max 0 (1 - friction c * dt)
           in Inr (c\<lparr>vel := (fst v1 * f, snd v1 * f), center := p2\<rparr>, g2))"

text \<open>
  \<open>ruffle_draws\<close> is the three draws of lines 105 to 106 in the order Python evaluates
  them: the left operand \<^verbatim>\<open>normalvariate\<close> first, then the arguments of \<^verbatim>\<open>np.cos\<close> from
  left to right, \<^verbatim>\<open>randint(1, 3)\<close> and \<^verbatim>\<open>uniform(0, 2 * pi)\<close>. \<open>ruffle\<close> adds the harmonic.
\<close>

definition ruffle_draws :: "'g rng_ops \<Rightarrow> cell \<Rightarrow> 'g \<Rightarrow> (real \<times> int \<times> real) \<times> 'g" where
  "ruffle_draws ops c g =
     (let (sample, g3) = normalvariate ops 0 (ruffle_std c * base_r c) g;
          (k, g4) = randint ops 1 3 g3;
          (phase, g5) = uniform ops 0 (2 * pi) g4
      in ((sample, k, phase), g5))"

definition ruffle :: "'g rng_ops \<Rightarrow> cell \<times> 'g \<Rightarrow> cell \<times> 'g" where
  "ruffle ops cg =
     (let c = fst cg; ((sample, k, phase), g5) = ruffle_draws ops c (snd cg)
      in (c\<lparr>r := map2 (\<lambda>x a. x + sample * cos (of_int k * a + phase)) (r c) (angles c)\<rparr>, g5))"

text \<open>Lines 108 to 110: the discrete Laplacian, the two relaxations and the clamp.\<close>

definition relax_clip :: "cell \<Rightarrow> cell" where
  "relax_clip c =
     (let r1 = r c;
          lap = map2 (\<lambda>(p, q) x. p + q - 2 * x) (zip (roll_left r1) (roll_right r1)) r1;
          r2 = map2 (\<lambda>x l. x + (curvature_relax c * l + radial_relax c * (base_r c - x))) r1 lap
      in c\<lparr>r := clip r2 (0.4 * base_r c) (2.2 * base_r c)\<rparr>)"

definition update :: "'g rng_ops \<Rightarrow> real \<Rightarrow> cell \<times> 'g \<Rightarrow> error + cell \<times> 'g" where
  "update ops dt cg =
     (case drift ops dt cg of
        Inl e \<Rightarrow> Inl e
      | Inr cg1 \<Rightarrow>
          let (c2, g5) = ruffle ops cg1
          in (case conserve_area (relax_clip c2) of
                Inl e \<Rightarrow> Inl e
              | Inr c3 \<Rightarrow> Inr (c3, g5)))"

text \<open>
  \<^verbatim>\<open>collide\<close>. The division by \<^verbatim>\<open>self.width\<close> of a NumPy float gives NaN or an infinity
  when the width is 0, and \<^verbatim>\<open>round\<close> then raises ValueError or OverflowError. \<^verbatim>\<open>max\<close> raises
  ValueError on an empty sequence.
\<close>

definition collide :: "cell \<Rightarrow> cell \<Rightarrow> error + cell \<times> cell" where
  "collide a b =
     (let dvx0 = fst (center b) - fst (center a);
          dvy0 = snd (center b) - snd (center a)
      in if width a = 0 then Inl (if dvx0 = 0 then ValueError else OverflowError)
         else if height a = 0 then Inl (if dvy0 = 0 then ValueError else OverflowError)
         else
           let dvx = dvx0 - of_int (width a) * of_int (py_round (dvx0 / of_int (width a)));
               dvy = dvy0 - of_int (height a) * of_int (py_round (dvy0 / of_int (height a)));
               dist = sqrt (dvx\<^sup>2 + dvy\<^sup>2)
           in if dist = 0 then Inr (a, b)
              else if r a = [] \<or> r b = [] then Inl ValueError
              else
                let overlap = max_list (r a) + max_list (r b) - dist
                in if overlap \<le> 0 then Inr (a, b)
                   else
                     let sx = 0.5 * (overlap + 0.5) * (dvx / dist);
                         sy = 0.5 * (overlap + 0.5) * (dvy / dist)
                     in Inr (a\<lparr>center := wrap (fst (center a) - sx, snd (center a) - sy)
                                              (width a) (height a),
                               vel := (0, 0)\<rparr>,
                             b\<lparr>center := wrap (fst (center b) + sx, snd (center b) + sy)
                                              (width b) (height b),
                               vel := (0, 0)\<rparr>))"

subsection \<open>MicroscopeSim\<close>

text \<open>
  The constructor's parameters that reach the physics. The image parameters (contrast,
  blur, noise, brightness, overlay) only feed the filter and are left out.
\<close>

record config =
  cfg_width :: int
  cfg_height :: int
  cfg_nb_cells :: nat
  cfg_vertices :: nat
  cfg_base_radius :: real
  cfg_friction :: real
  cfg_brownian_d :: real
  cfg_curvature_relax :: real
  cfg_radial_relax :: real
  cfg_protrusion_gain :: real
  cfg_impulse :: real
  cfg_ruffle_std :: real
  cfg_rng_seed :: int

record 'g sim =
  conf :: config
  rng :: 'g
  cells :: "cell list"
  last_time :: real

text \<open>The list comprehension that builds the cells, all from the one generator.\<close>

fun make_cells :: "'g rng_ops \<Rightarrow> config \<Rightarrow> nat \<Rightarrow> 'g \<Rightarrow> cell list \<times> 'g" where
  "make_cells ops cf 0 g = ([], g)"
| "make_cells ops cf (Suc n) g =
     (let (c, g1) = Cell_init ops (cfg_width cf) (cfg_height cf) (cfg_base_radius cf)
                      (cfg_vertices cf) (cfg_friction cf) (cfg_brownian_d cf)
                      (cfg_curvature_relax cf) (cfg_radial_relax cf) (cfg_protrusion_gain cf)
                      (cfg_impulse cf) (cfg_ruffle_std cf) g;
          (cs, g2) = make_cells ops cf n g1
      in (c # cs, g2))"

text \<open>
  \<^verbatim>\<open>MicroscopeSim.__init__\<close> and \<^verbatim>\<open>reset\<close>; \<open>now\<close> is the reading of
  \<^verbatim>\<open>time.perf_counter()\<close>, an input of the model.
\<close>

definition MicroscopeSim_init :: "'g rng_ops \<Rightarrow> config \<Rightarrow> real \<Rightarrow> 'g sim" where
  "MicroscopeSim_init ops cf now =
     (let (cs, g) = make_cells ops cf (cfg_nb_cells cf) (rnd_seed ops (cfg_rng_seed cf))
      in \<lparr> conf = cf, rng = g, cells = cs, last_time = now \<rparr>)"

definition reset :: "'g rng_ops \<Rightarrow> real \<Rightarrow> 'g sim \<Rightarrow> 'g sim" where
  "reset ops now s =
     (let (cs, g) = make_cells ops (conf s) (cfg_nb_cells (conf s)) (rng s)
      in s\<lparr>rng := g, cells := cs, last_time := now\<rparr>)"

text \<open>The three loops of \<^verbatim>\<open>get_frame\<close>; an exception ends the frame.\<close>

fun stimulate_all :: "mask \<Rightarrow> cell list \<Rightarrow> 'g \<Rightarrow> error + cell list \<times> 'g" where
  "stimulate_all m [] g = Inr ([], g)"
| "stimulate_all m (c # cs) g =
     (case stimulate m (c, g) of
        Inl e \<Rightarrow> Inl e
      | Inr (c', g') \<Rightarrow>
          (case stimulate_all m cs g' of
             Inl e \<Rightarrow> Inl e
           | Inr (cs', g'') \<Rightarrow> Inr (c' # cs', g'')))"

fun update_all :: "'g rng_ops \<Rightarrow> real \<Rightarrow> cell list \<Rightarrow> 'g \<Rightarrow> error + cell list \<times> 'g" where
  "update_all ops dt [] g = Inr ([], g)"
| "update_all ops dt (c # cs) g =
     (case update ops dt (c, g) of
        Inl e \<Rightarrow> Inl e
      | Inr (c', g') \<Rightarrow>
          (case update_all ops dt cs g' of
             Inl e \<Rightarrow> Inl e
           | Inr (cs', g'') \<Rightarrow> Inr (c' # cs', g'')))"

text \<open>\<^verbatim>\<open>itertools.combinations(cells, 2)\<close> by position: every \<open>i < j\<close>, in lexicographic order.\<close>

definition pairs :: "nat \<Rightarrow> (nat \<times> nat) list" where
  "pairs n = concat (map (\<lambda>i. map (\<lambda>j. (i, j)) [Suc i..<n]) [0..<n])"

fun collide_pairs :: "(nat \<times> nat) list \<Rightarrow> cell list \<Rightarrow> error + cell list" where
  "collide_pairs [] cs = Inr cs"
| "collide_pairs ((i, j) # ps) cs =
     (case collide (cs ! i) (cs ! j) of
        Inl e \<Rightarrow> Inl e
      | Inr (a, b) \<Rightarrow> collide_pairs ps (cs[i := a, j := b]))"

text \<open>
  \<^verbatim>\<open>get_frame\<close> up to the drawing: the elapsed time, the stimulation pass (skipped when the
  mask has no true pixel), the update pass and the collision pass.
\<close>

definition get_frame :: "'g rng_ops \<Rightarrow> mask \<Rightarrow> real \<Rightarrow> 'g sim \<Rightarrow> error + 'g sim" where
  "get_frame ops m now s =
     (let dt = now - last_time s
      in case (if mask_any m then stimulate_all m (cells s) (rng s) else Inr (cells s, rng s)) of
           Inl e \<Rightarrow> Inl e
         | Inr (cs1, g1) \<Rightarrow>
             (case update_all ops dt cs1 g1 of
                Inl e \<Rightarrow> Inl e
              | Inr (cs2, g2) \<Rightarrow>
                  (case collide_pairs (pairs (length cs2)) cs2 of
                     Inl e \<Rightarrow> Inl e
                   | Inr cs3 \<Rightarrow> Inr (s\<lparr>rng := g2, cells := cs3, last_time := now\<rparr>))))"

text \<open>The polygon set handed to the renderer: each cell's centre and its vertices.\<close>

definition polygons :: "'g sim \<Rightarrow> (vec2 \<times> vec2 list) list" where
  "polygons s = map (\<lambda>c. (center c, abs_pts c)) (cells s)"

text \<open>
  A run: the frames for a list of masks and clock readings, with the polygon set after
  each tick; it stops at the first exception.
\<close>

fun run :: "'g rng_ops \<Rightarrow> 'g sim \<Rightarrow> (mask \<times> real) list \<Rightarrow> (error + (vec2 \<times> vec2 list) list) list"
  where
  "run ops s [] = []"
| "run ops s ((m, now) # ins) =
     (case get_frame ops m now s of
        Inl e \<Rightarrow> [Inl e]
      | Inr s' \<Rightarrow> Inr (polygons s') # run ops s' ins)"

text \<open>The elapsed times a run computes from a start reading and the later readings.\<close>

fun elapsed :: "real \<Rightarrow> real list \<Rightarrow> real list" where
  "elapsed t [] = []"
| "elapsed t (now # ts) = (now - t) # elapsed now ts"

subsection \<open>Predicates and concrete cells used by the properties\<close>

text \<open>The centre lies in the field.\<close>

definition in_field :: "cell \<Rightarrow> bool" where
  "in_field c \<longleftrightarrow>
     0 \<le> fst (center c) \<and> fst (center c) < of_int (width c) \<and>
     0 \<le> snd (center c) \<and> snd (center c) < of_int (height c)"

text \<open>
  What \<^verbatim>\<open>Cell.__init__\<close> establishes and no method changes: the radii array has
  \<open>vertices\<close> entries, the angles are the \<^verbatim>\<open>linspace\<close> ones, the target area is
  \<open>pi * base_r\<^sup>2\<close>.
\<close>

definition wf_cell :: "cell \<Rightarrow> bool" where
  "wf_cell c \<longleftrightarrow>
     length (r c) = vertices c \<and>
     angles c = map (\<lambda>i. real i * (2 * pi / real (vertices c))) [0..<vertices c] \<and>
     area0 c = pi * (base_r c)\<^sup>2"

text \<open>
  A four-vertex cell of base radius 1 in the middle of a 10 by 10 field, as the
  constructor builds it from the draws 0.5, 0.5, 0.5, and the cell one \<open>update\<close> makes of
  it when the ruffle sample is 2, the harmonic 1 and the phase 0.
\<close>

definition demo_cell :: cell where
  "demo_cell =
     \<lparr> width = 10, height = 10, base_r = 1, r = [1, 1, 1, 1],
       angles = [0, pi / 2, pi, 3 * pi / 2], area0 = pi, vel = (0, 0), vertices = 4,
       friction = 3, brownian_d = 80, curvature_relax = 0.06, radial_relax = 0.02,
       protrusion_gain = 0.05, impulse = 10, ruffle_std = 1, center = (5, 5) \<rparr>"

definition demo_result :: cell where
  "demo_result =
     demo_cell\<lparr>r := [11 / 5 * sqrt (pi / (13 / 5)), sqrt (pi / (13 / 5)),
                     2 / 5 * sqrt (pi / (13 / 5)), sqrt (pi / (13 / 5))]\<rparr>"

text \<open>
  The words of the specification for \<open>resolveCollision\<close>: the minimum-image displacement
  \<open>d - L * round (d / L)\<close> on each axis, the overlap of the two largest radii, no effect
  when the overlap is not positive or the distance is zero, otherwise a push of
  \<open>0.5 * (overlap + 0.5)\<close> along the unit displacement in opposite directions, both
  centres wrapped again and both velocities set to zero.
\<close>

definition min_image :: "real \<Rightarrow> int \<Rightarrow> real" where
  "min_image d len = d - of_int len * of_int (py_round (d / of_int len))"

definition resolveCollision_spec :: "cell \<Rightarrow> cell \<Rightarrow> cell \<times> cell" where
  "resolveCollision_spec a b =
     (let dx = min_image (fst (center b) - fst (center a)) (width a);
          dy = min_image (snd (center b) - snd (center a)) (height a);
          distance = sqrt (dx\<^sup>2 + dy\<^sup>2);
          overlap = Max (set (r a)) + Max (set (r b)) - distance
      in if overlap \<le> 0 \<or> distance = 0 then (a, b)
         else
           let push = 0.5 * (overlap + 0.5); ux = dx / distance; uy = dy / distance
           in (a\<lparr>center := wrap (fst (center a) - push * ux, snd (center a) - push * uy)
                                (width a) (height a),
                 vel := (0, 0)\<rparr>,
               b\<lparr>center := wrap (fst (center b) + push * ux, snd (center b) + push * uy)
                                (width b) (height b),
                 vel := (0, 0)\<rparr>))"

text \<open>
  The vocabulary of \<open>stimulate\<close> on the vertex positions: a position is on the screen,
  the retained vertices, a position whose pixel index is outside the mask's shape, a
  position on a true pixel, the indices of the hit vertices and the radii after the
  protrusion and the clamp.
\<close>

definition on_screen :: "cell \<Rightarrow> vec2 \<Rightarrow> bool" where
  "on_screen c p \<longleftrightarrow>
     0 \<le> fst p \<and> fst p < of_int (width c) \<and> 0 \<le> snd p \<and> snd p < of_int (height c)"

definition retained :: "cell \<Rightarrow> vec2 list" where
  "retained c = filter (on_screen c) (abs_pts c)"

definition outside_mask :: "mask \<Rightarrow> vec2 \<Rightarrow> bool" where
  "outside_mask m p \<longleftrightarrow> nrows m \<le> nat \<lfloor>snd p\<rfloor> \<or> ncols m \<le> nat \<lfloor>fst p\<rfloor>"

definition lit :: "mask \<Rightarrow> vec2 \<Rightarrow> bool" where
  "lit m p \<longleftrightarrow> pixel m (nat \<lfloor>snd p\<rfloor>) (nat \<lfloor>fst p\<rfloor>)"

definition hit_vertices :: "mask \<Rightarrow> cell \<Rightarrow> nat list" where
  "hit_vertices m c =
     select (map (lit m) (retained c))
       (select (map (on_screen c) (abs_pts c)) [0..<length (abs_pts c)])"

definition protruded :: "mask \<Rightarrow> cell \<Rightarrow> real list" where
  "protruded m c =
     clip (map2 (\<lambda>i x. if i \<in> set (hit_vertices m c) then x + protrusion_gain c * base_r c else x)
             [0..<length (r c)] (r c))
       (0.4 * base_r c) (2.2 * base_r c)"

text \<open>The band \<open>[0.4 * base_r, 2.2 * base_r]\<close> of the clamp.\<close>

definition in_band :: "cell \<Rightarrow> real \<Rightarrow> bool" where
  "in_band c x \<longleftrightarrow> 0.4 * base_r c \<le> x \<and> x \<le> 2.2 * base_r c"

text \<open>
  The configuration and the simulator that go with \<open>demo_cell\<close>, and three masks: one of
  the field's shape with no true pixel, one of the field's shape whose only true pixel is
  in a corner, away from every vertex, and one of shape 7 by 7, not the field's, whose
  only true pixel is under vertex 0. \<open>demo_stim\<close> is the cell after the stimulation by
  the last one.
\<close>

definition demo_config :: config where
  "demo_config =
     \<lparr> cfg_width = 10, cfg_height = 10, cfg_nb_cells = 1, cfg_vertices = 4,
       cfg_base_radius = 1, cfg_friction = 3, cfg_brownian_d = 80,
       cfg_curvature_relax = 0.06, cfg_radial_relax = 0.02, cfg_protrusion_gain = 0.05,
       cfg_impulse = 10, cfg_ruffle_std = 1, cfg_rng_seed = 0 \<rparr>"

definition demo_sim :: "real list sim" where
  "demo_sim = \<lparr> conf = demo_config, rng = [0, 0, 2, 0, 0], cells = [demo_cell], last_time = 0 \<rparr>"

definition empty_mask :: mask where
  "empty_mask = \<lparr> nrows = 10, ncols = 10, pixel = (\<lambda>iy ix. False) \<rparr>"

definition corner_mask :: mask where
  "corner_mask = \<lparr> nrows = 10, ncols = 10, pixel = (\<lambda>iy ix. iy = 0 \<and> ix = 0) \<rparr>"

definition small_mask :: mask where
  "small_mask = \<lparr> nrows = 7, ncols = 7, pixel = (\<lambda>iy ix. iy = 5 \<and> ix = 6) \<rparr>"

definition demo_stim :: cell where
  "demo_stim =
     demo_cell\<lparr>r := [21 / 20 * sqrt (pi / (41 / 20)), sqrt (pi / (41 / 20)),
                     sqrt (pi / (41 / 20)), sqrt (pi / (41 / 20))],
               vel := (10, 0)\<rparr>"

section \<open>Properties\<close>

subsection \<open>Wrapping\<close>

lemma py_mod_range: "0 < m \<Longrightarrow> 0 \<le> py_mod x m \<and> py_mod x m < m"
proof -
  assume m: "0 < m"
  have "of_int \<lfloor>x / m\<rfloor> * m \<le> x" using m by (rule floor_divide_lower)
  moreover have "x < (of_int \<lfloor>x / m\<rfloor> + 1) * m" using m by (rule floor_divide_upper)
  ultimately show ?thesis by (simp add: py_mod_def algebra_simps)
qed

lemma py_mod_id: "0 \<le> x \<Longrightarrow> x < m \<Longrightarrow> py_mod x m = x"
proof -
  assume x: "0 \<le> x" "x < m"
  then have "\<lfloor>x / m\<rfloor> = 0" by (simp add: floor_eq_iff)
  then show ?thesis by (simp add: py_mod_def)
qed

lemma wrap_range:
  "0 < w \<Longrightarrow> 0 < h \<Longrightarrow>
     0 \<le> fst (wrap p w h) \<and> fst (wrap p w h) < of_int w \<and>
     0 \<le> snd (wrap p w h) \<and> snd (wrap p w h) < of_int h"
  using py_mod_range [of "of_int w" "fst p"] py_mod_range [of "of_int h" "snd p"]
  by (simp add: wrap_def)

subsection \<open>Which fields each step writes\<close>

lemma conserve_area_fields:
  "conserve_area c = Inr c' \<Longrightarrow>
     width c' = width c \<and> height c' = height c \<and> center c' = center c \<and> vel c' = vel c \<and>
     base_r c' = base_r c \<and> angles c' = angles c \<and> area0 c' = area0 c \<and>
     vertices c' = vertices c \<and> length (r c') = length (r c)"
  by (auto simp: conserve_area_def Let_def split: sum.splits if_splits)

lemma drift_fields:
  "drift ops dt (c, g) = Inr (c', g') \<Longrightarrow>
     width c' = width c \<and> height c' = height c \<and> r c' = r c \<and> base_r c' = base_r c \<and>
     angles c' = angles c \<and> area0 c' = area0 c \<and> vertices c' = vertices c"
  by (auto simp: drift_def Let_def split: if_splits prod.splits)

lemma drift_center:
  "drift ops dt (c, g) = Inr (c', g') \<Longrightarrow> \<exists>p. center c' = wrap p (width c) (height c)"
  by (fastforce simp: drift_def Let_def split: if_splits prod.splits)

lemma ruffle_fields:
  "ruffle ops (c, g) = (c', g') \<Longrightarrow>
     width c' = width c \<and> height c' = height c \<and> center c' = center c \<and> vel c' = vel c \<and>
     base_r c' = base_r c \<and> angles c' = angles c \<and> area0 c' = area0 c \<and>
     vertices c' = vertices c"
  by (auto simp: ruffle_def Let_def split: prod.splits)

lemma relax_clip_fields:
  "width (relax_clip c) = width c \<and> height (relax_clip c) = height c \<and>
   center (relax_clip c) = center c \<and> vel (relax_clip c) = vel c \<and>
   base_r (relax_clip c) = base_r c \<and> angles (relax_clip c) = angles c \<and>
   area0 (relax_clip c) = area0 c \<and> vertices (relax_clip c) = vertices c"
  by (simp add: relax_clip_def Let_def)

lemma update_steps:
  assumes "update ops dt (c, g) = Inr (c', g')"
  obtains c1 g1 c2 where
    "drift ops dt (c, g) = Inr (c1, g1)" "ruffle ops (c1, g1) = (c2, g')"
    "conserve_area (relax_clip c2) = Inr c'"
  using assms by (auto simp: update_def split: sum.splits prod.splits)

lemma update_in_field:
  assumes "update ops dt (c, g) = Inr (c', g')" "0 < width c" "0 < height c"
  shows "in_field c'"
proof -
  from assms(1) obtain c1 g1 c2 where
    d: "drift ops dt (c, g) = Inr (c1, g1)" and
    rf: "ruffle ops (c1, g1) = (c2, g')" and
    ca: "conserve_area (relax_clip c2) = Inr c'"
    by (rule update_steps)
  from drift_center [OF d] obtain p where p: "center c1 = wrap p (width c) (height c)" ..
  have "center c' = center c1" "width c' = width c" "height c' = height c"
    using conserve_area_fields [OF ca] relax_clip_fields [of c2] ruffle_fields [OF rf]
      drift_fields [OF d] by simp_all
  then show ?thesis
    using wrap_range [OF assms(2,3), of p] p by (simp add: in_field_def)
qed

lemma collide_cases:
  assumes "collide a b = Inr (a', b')"
  shows "(a' = a \<and> b' = b) \<or>
         (\<exists>p q. a' = a\<lparr>center := wrap p (width a) (height a), vel := (0, 0)\<rparr> \<and>
                b' = b\<lparr>center := wrap q (width b) (height b), vel := (0, 0)\<rparr>)"
  using assms unfolding collide_def Let_def
  by (auto split: if_splits)

lemma collide_in_field:
  assumes "collide a b = Inr (a', b')"
    "0 < width a" "0 < height a" "0 < width b" "0 < height b"
  shows "(a' = a \<and> b' = b) \<or> (in_field a' \<and> in_field b')"
  using collide_cases [OF assms(1)] wrap_range [OF assms(2,3)] wrap_range [OF assms(4,5)]
  by (auto simp: in_field_def)

subsection \<open>A concrete run\<close>

lemma upt_4: "[0..<4] = [0, 1, 2, 3]"
  by code_simp

lemma replicate_4: "replicate 4 x = [x, x, x, x]"
  by (simp add: numeral_eq_Suc)

lemma cos_3pi_half: "cos (3 * pi / 2) = 0"
  using cos_3over2_pi by (simp add: field_simps)

lemma sin_3pi_half: "sin (3 * pi / 2) = -1"
  using sin_3over2_pi by (simp add: field_simps)

lemma demo_init:
  "Cell_init script_rng 10 10 1 4 3 80 0.06 0.02 0.05 10 1 [0.5, 0.5, 0.5] = (demo_cell, [])"
  by (simp add: Cell_init_def script_rng_def script_next_def uniform_def demo_cell_def
      upt_4 replicate_4)

lemma demo_drift:
  "drift script_rng (1/50) (demo_cell, [0, 0, 2, 0, 0]) = Inr (demo_cell, [2, 0, 0])"
  by (simp add: drift_def script_rng_def script_next_def uniform_def normalvariate_def
      demo_cell_def wrap_def py_mod_id)

lemma demo_ruffle:
  "ruffle script_rng (demo_cell, [2, 0, 0]) = (demo_cell\<lparr>r := [3, 1, -1, 1]\<rparr>, [])"
  by (simp add: ruffle_def ruffle_draws_def script_rng_def script_next_def uniform_def
      normalvariate_def randint_def demo_cell_def cos_3pi_half)

lemma demo_relax_clip:
  "relax_clip (demo_cell\<lparr>r := [3, 1, -1, 1]\<rparr>) = demo_cell\<lparr>r := [11 / 5, 1, 2 / 5, 1]\<rparr>"
  by (simp add: relax_clip_def demo_cell_def roll_left_def roll_right_def clip_def)

lemma demo_area:
  "polygon_area (abs_pts (demo_cell\<lparr>r := [11 / 5, 1, 2 / 5, 1]\<rparr>)) = Inr (13 / 5)"
  by (simp add: polygon_area_def abs_pts_def rel_pts_def demo_cell_def dot_def roll_left_def
      cos_3pi_half sin_3pi_half)

lemma demo_conserve:
  "conserve_area (demo_cell\<lparr>r := [11 / 5, 1, 2 / 5, 1]\<rparr>) = Inr demo_result"
  unfolding conserve_area_def demo_area demo_result_def by (simp add: demo_cell_def)

lemma demo_update:
  "update script_rng (1/50) (demo_cell, [0, 0, 2, 0, 0]) = Inr (demo_result, [])"
  unfolding update_def demo_drift by (simp add: demo_ruffle demo_relax_clip demo_conserve)

lemma demo_collide:
  "collide demo_cell (demo_cell\<lparr>center := (6, 5), vel := (1, 2)\<rparr>) =
     Inr (demo_cell\<lparr>center := (17 / 4, 5)\<rparr>, demo_cell\<lparr>center := (27 / 4, 5)\<rparr>)"
  by (simp add: collide_def demo_cell_def py_round_def wrap_def py_mod_id)

subsection \<open>Facts about the operations\<close>

lemma max_list_Max: "xs \<noteq> [] \<Longrightarrow> max_list xs = Max (set xs)"
  by (induction xs rule: max_list.induct) (auto simp: max_def)

lemma drift_zero:
  "drift ops 0 (c, g) =
     Inr (c\<lparr>vel := vel c, center := wrap (center c) (width c) (height c)\<rparr>,
          snd (uniform ops 0 (2 * pi) (snd (normalvariate ops 0 0 g))))"
  by (simp add: drift_def Let_def normalvariate_def split: prod.splits)

lemma wrap_in_field: "in_field c \<Longrightarrow> wrap (center c) (width c) (height c) = center c"
  by (simp add: in_field_def wrap_def py_mod_id prod_eq_iff)

lemma abs_pts_length: "length (abs_pts c) = min (length (angles c)) (length (r c))"
  by (simp add: abs_pts_def rel_pts_def)

lemma ruffle_length:
  "ruffle ops (c, g) = (c', g') \<Longrightarrow> length (r c') = min (length (r c)) (length (angles c))"
  by (auto simp: ruffle_def Let_def split: prod.splits)

lemma relax_clip_length: "length (r (relax_clip c)) = length (r c)"
  by (simp add: relax_clip_def Let_def clip_def roll_left_def roll_right_def)

lemma conserve_area_ok:
  assumes "abs_pts c \<noteq> []" "0 \<le> area0 c"
  shows "\<exists>c'. conserve_area c = Inr c'"
proof -
  define a where "a = 0.5 * (dot (map fst (abs_pts c)) (roll_left (map snd (abs_pts c))) -
                             dot (map snd (abs_pts c)) (roll_left (map fst (abs_pts c))))"
  have a: "polygon_area (abs_pts c) = Inr a"
    using assms(1) unfolding a_def by (simp add: polygon_area_def Let_def)
  have "\<not> area0 c / \<bar>a\<bar> < 0" using assms(2) by (simp add: not_less)
  then show ?thesis by (simp add: conserve_area_def a Let_def)
qed

lemma wf_cell_lengths: "wf_cell c \<Longrightarrow> length (r c) = vertices c \<and> length (angles c) = vertices c"
  by (simp add: wf_cell_def)

lemma wf_cell_area0: "wf_cell c \<Longrightarrow> 0 \<le> area0 c"
  by (simp add: wf_cell_def)

lemma stimulate_generator:
  "stimulate m (c, g) = map_sum id (\<lambda>p. (fst p, g)) (stimulate m (c, h))"
  by (simp add: stimulate_def Let_def split: sum.splits)

lemma stimulate_rng: "stimulate m (c, g) = Inr (c', g') \<Longrightarrow> g' = g"
  using stimulate_generator [of m c g g] by (cases "stimulate m (c, g)") auto

lemma stimulate_all_generator:
  "stimulate_all m cs g = Inr (cs', g') \<Longrightarrow> g' = g"
proof (induction cs arbitrary: g cs' g')
  case Nil
  then show ?case by simp
next
  case (Cons c cs)
  from Cons.prems obtain c1 g1 cs1 where
    s1: "stimulate m (c, g) = Inr (c1, g1)" and s2: "stimulate_all m cs g1 = Inr (cs1, g')"
    by (auto split: sum.splits prod.splits)
  from stimulate_rng [OF s1] Cons.IH [OF s2] show ?case by simp
qed

lemma rng_ok_randbelow: "rng_ok ops \<Longrightarrow> rnd_randbelow ops 3 g = (n, g') \<Longrightarrow> n < 3"
  unfolding rng_ok_def by (metis fst_conv zero_less_numeral)

lemma rng_ok_random: "rng_ok ops \<Longrightarrow> rnd_random ops g = (u, g') \<Longrightarrow> 0 \<le> u \<and> u < 1"
  unfolding rng_ok_def by (metis fst_conv)

lemma ruffle_draws_unfold:
  assumes "rnd_std_normal ops g = (z, ga)" "rnd_randbelow ops 3 ga = (n, gb)"
    "rnd_random ops gb = (u, g')"
  shows "ruffle_draws ops c g = ((z * (ruffle_std c * base_r c), 1 + int n, 2 * pi * u), g')"
  using assms by (simp add: ruffle_draws_def normalvariate_def randint_def uniform_def)

lemma get_frame_shift:
  assumes "now2 - l2 = now1 - last_time s"
  shows "get_frame ops m now2 (s\<lparr>last_time := l2\<rparr>) =
           map_sum id (\<lambda>s'. s'\<lparr>last_time := now2\<rparr>) (get_frame ops m now1 s)"
  using assms by (simp add: get_frame_def Let_def split: sum.splits prod.splits)

lemma polygons_last_time: "polygons (s\<lparr>last_time := t\<rparr>) = polygons s"
  by (simp add: polygons_def)

lemma get_frame_last_time: "get_frame ops m now s = Inr s' \<Longrightarrow> last_time s' = now"
  by (auto simp: get_frame_def Let_def split: sum.splits prod.splits if_splits)

lemma run_shift:
  assumes "map fst ins1 = map fst ins2"
    "elapsed (last_time s) (map snd ins1) = elapsed l2 (map snd ins2)"
  shows "run ops s ins1 = run ops (s\<lparr>last_time := l2\<rparr>) ins2"
  using assms
proof (induction ins1 arbitrary: ins2 s l2)
  case Nil
  then show ?case by simp
next
  case (Cons i1 ins1)
  obtain m now1 where i1: "i1 = (m, now1)" by (cases i1)
  from Cons.prems(1) obtain i2 rest where ins2: "ins2 = i2 # rest" by (cases ins2) auto
  obtain m2 now2 where i2: "i2 = (m2, now2)" by (cases i2)
  from Cons.prems(1) have m2: "m2 = m" and fs: "map fst ins1 = map fst rest"
    by (simp_all add: ins2 i1 i2)
  from Cons.prems(2) have dt: "now2 - l2 = now1 - last_time s"
    and el: "elapsed now1 (map snd ins1) = elapsed now2 (map snd rest)"
    by (simp_all add: ins2 i1 i2)
  note gs = get_frame_shift [OF dt, of ops m]
  show ?case
  proof (cases "get_frame ops m now1 s")
    case (Inl e)
    then show ?thesis by (simp add: ins2 i1 i2 m2 gs)
  next
    case (Inr s')
    have lt: "last_time s' = now1" using Inr by (rule get_frame_last_time)
    have "run ops s' ins1 = run ops (s'\<lparr>last_time := now2\<rparr>) rest"
      using Cons.IH [OF fs, of s' now2] el lt by simp
    then show ?thesis by (simp add: ins2 i1 i2 m2 gs Inr polygons_last_time)
  qed
qed

lemma init_last_time:
  "MicroscopeSim_init ops cf t2 = (MicroscopeSim_init ops cf t1)\<lparr>last_time := t2\<rparr> \<and>
   last_time (MicroscopeSim_init ops cf t1) = t1"
  by (simp add: MicroscopeSim_init_def split: prod.splits)

lemma zip_map2_same:
  "zip (map2 f as rs) (map2 h as rs) = map2 (\<lambda>a x. (f a x, h a x)) as rs"
  by (induction as rs rule: list_induct2') auto

lemma abs_pts_map2:
  "abs_pts c = map2 (\<lambda>a x. (fst (center c) + cos a * x, snd (center c) + sin a * x)) (angles c) (r c)"
  by (auto simp: abs_pts_def rel_pts_def zip_map2_same)

lemma stim_vx: "map2 (\<lambda>a x. fst (center c) + cos a * x) (angles c) (r c) = map fst (abs_pts c)"
  by (simp add: abs_pts_map2 comp_def case_prod_unfold)

lemma stim_vy: "map2 (\<lambda>a x. snd (center c) + sin a * x) (angles c) (r c) = map snd (abs_pts c)"
  by (simp add: abs_pts_map2 comp_def case_prod_unfold)

lemma stim_inside:
  "map2 (\<lambda>x y. 0 \<le> x \<and> x < of_int (width c) \<and> 0 \<le> y \<and> y < of_int (height c))
     (map fst ps) (map snd ps) = map (on_screen c) ps"
  by (induction ps) (auto simp: on_screen_def)

lemma select_map: "select (map Q ps) (map f ps) = map f (filter Q ps)"
  by (induction ps) (auto simp: select_def)

lemma any_true_map: "any_true (map Q ps) \<longleftrightarrow> filter Q ps \<noteq> []"
  by (induction ps) (auto simp: any_true_def)

lemma stim_range:
  "list_ex (\<lambda>i. nrows m \<le> i) (map (\<lambda>y. nat \<lfloor>y\<rfloor>) (map snd ps)) \<or>
   list_ex (\<lambda>i. ncols m \<le> i) (map (\<lambda>x. nat \<lfloor>x\<rfloor>) (map fst ps)) \<longleftrightarrow>
   (\<exists>p\<in>set ps. outside_mask m p)"
  by (auto simp: list_ex_iff outside_mask_def)

lemma stim_hit:
  "map2 (pixel m) (map (\<lambda>y. nat \<lfloor>y\<rfloor>) (map snd ps)) (map (\<lambda>x. nat \<lfloor>x\<rfloor>) (map fst ps)) =
   map (lit m) ps"
  by (induction ps) (auto simp: lit_def)

lemma any_true_set: "any_true (map Q ps) \<longleftrightarrow> (\<exists>p\<in>set ps. Q p)"
  by (simp add: any_true_def list_ex_iff)

lemma clip_band: "0 \<le> base_r c \<Longrightarrow> x \<in> set (clip xs (0.4 * base_r c) (2.2 * base_r c)) \<Longrightarrow> in_band c x"
  by (auto simp: clip_def in_band_def)

lemma clip_length: "length (clip xs lo hi) = length xs"
  by (simp add: clip_def)

lemmas stimulate_view =
  stim_vx stim_vy stim_inside select_map stim_range stim_hit any_true_map

lemma stimulate_none_retained:
  assumes "retained c = []"
  shows "stimulate m (c, g) = Inr (c, g)"
  using assms unfolding stimulate_def Let_def fst_conv snd_conv stim_vx stim_vy
  unfolding stim_inside unfolding stimulate_view retained_def
  by simp

lemma stimulate_outside_mask:
  assumes "\<exists>p\<in>set (retained c). outside_mask m p"
  shows "stimulate m (c, g) = Inl IndexError"
proof -
  from assms have ne: "filter (on_screen c) (abs_pts c) \<noteq> []"
    by (auto simp: retained_def filter_empty_conv)
  from assms have out: "\<exists>p\<in>set (filter (on_screen c) (abs_pts c)). outside_mask m p"
    by (simp add: retained_def)
  show ?thesis
    unfolding stimulate_def Let_def fst_conv snd_conv stim_vx stim_vy
    unfolding stim_inside unfolding stimulate_view
    using ne out by (simp only: if_True if_False not_not simp_thms)
qed

lemma stimulate_none_lit:
  assumes "\<not> (\<exists>p\<in>set (retained c). outside_mask m p)" "\<not> (\<exists>p\<in>set (retained c). lit m p)"
  shows "stimulate m (c, g) = Inr (c, g)"
proof -
  from assms(1) have out: "\<not> (\<exists>p\<in>set (filter (on_screen c) (abs_pts c)). outside_mask m p)"
    by (simp add: retained_def)
  from assms(2) have hit: "filter (lit m) (filter (on_screen c) (abs_pts c)) = []"
    unfolding retained_def filter_empty_conv by blast
  show ?thesis
  proof (cases "retained c = []")
    case True
    then show ?thesis by (rule stimulate_none_retained)
  next
    case False
    then have ne: "filter (on_screen c) (abs_pts c) \<noteq> []" by (simp add: retained_def)
    show ?thesis
      unfolding stimulate_def Let_def fst_conv snd_conv stim_vx stim_vy
    unfolding stim_inside unfolding stimulate_view
      using ne out hit by (simp only: if_True if_False not_not simp_thms)
  qed
qed

lemma if_vel_ex:
  "\<exists>v. (if P then Inr (c1\<lparr>vel := a\<rparr>, g) else Inr (c1, g)) =
        (Inr (c1\<lparr>vel := v\<rparr>, g) :: error + cell \<times> 'g)"
proof (cases P)
  case True
  then show ?thesis by (simp only: if_True) (rule exI, rule refl)
next
  case False
  have "Inr (c1, g) = (Inr (c1\<lparr>vel := vel c1\<rparr>, g) :: error + cell \<times> 'g)" by simp
  with False show ?thesis by (simp only: if_False) (rule exI, rule refl)
qed

lemma stimulate_hit_eq:
  assumes "\<not> (\<exists>p\<in>set (retained c). outside_mask m p)" "\<exists>p\<in>set (retained c). lit m p"
  shows "stimulate m (c, g) =
     (case conserve_area (c\<lparr>r := protruded m c\<rparr>) of
        Inl e \<Rightarrow> Inl e
      | Inr c1 \<Rightarrow>
          let tgt = (mean (map (\<lambda>i. map fst (abs_pts c) ! i) (hit_vertices m c)),
                     mean (map (\<lambda>i. map snd (abs_pts c) ! i) (hit_vertices m c)));
              vec = (fst tgt - fst (center c1), snd tgt - snd (center c1));
              n = sqrt ((fst vec)\<^sup>2 + (snd vec)\<^sup>2)
          in if n \<noteq> 0
             then Inr (c1\<lparr>vel := (fst (vel c1) + fst vec / n * impulse c1,
                                  snd (vel c1) + snd vec / n * impulse c1)\<rparr>, g)
             else Inr (c1, g))"
proof -
  from assms(1) have out: "\<not> (\<exists>p\<in>set (filter (on_screen c) (abs_pts c)). outside_mask m p)"
    by (simp add: retained_def)
  from assms(2) have hit: "filter (lit m) (filter (on_screen c) (abs_pts c)) \<noteq> []"
    unfolding retained_def filter_empty_conv by blast
  have ne: "filter (on_screen c) (abs_pts c) \<noteq> []"
    using hit by (cases "filter (on_screen c) (abs_pts c)") simp_all
  show ?thesis
    unfolding stimulate_def Let_def fst_conv snd_conv stim_vx stim_vy
    unfolding stim_inside unfolding stimulate_view protruded_def hit_vertices_def retained_def
    using ne out hit by (simp only: if_True if_False not_not simp_thms length_map)
qed

lemma stimulate_hit:
  assumes "\<not> (\<exists>p\<in>set (retained c). outside_mask m p)" "\<exists>p\<in>set (retained c). lit m p"
  shows "case conserve_area (c\<lparr>r := protruded m c\<rparr>) of
           Inl e \<Rightarrow> stimulate m (c, g) = Inl e
         | Inr c1 \<Rightarrow> \<exists>v. stimulate m (c, g) = Inr (c1\<lparr>vel := v\<rparr>, g)"
proof (cases "conserve_area (c\<lparr>r := protruded m c\<rparr>)")
  case (Inl e)
  then show ?thesis by (simp add: stimulate_hit_eq [OF assms])
next
  case (Inr c1)
  show ?thesis unfolding stimulate_hit_eq [OF assms] Inr sum.case Let_def
    by (rule if_vel_ex)
qed

lemma protruded_band: "0 \<le> base_r c \<Longrightarrow> x \<in> set (protruded m c) \<Longrightarrow> in_band c x"
  unfolding protruded_def by (rule clip_band)

lemma protruded_length: "length (protruded m c) = length (r c)"
  by (simp add: protruded_def clip_length)

subsection \<open>More of the concrete run\<close>

lemma rng_ok_script: "rng_ok script_rng"
proof -
  have a: "0 \<le> \<bar>x\<bar> - of_int \<lfloor>\<bar>x\<bar>\<rfloor> \<and> \<bar>x\<bar> - of_int \<lfloor>\<bar>x\<bar>\<rfloor> < 1" for x :: real
    by linarith
  show ?thesis
    unfolding rng_ok_def script_rng_def
    using a by (auto simp: script_next_def split: list.splits)
qed

lemma wf_demo_cell: "wf_cell demo_cell"
  by (simp add: wf_cell_def demo_cell_def upt_4)

lemma in_field_demo_cell: "in_field demo_cell"
  by (simp add: in_field_def demo_cell_def)

lemma abs_pts_demo: "abs_pts demo_cell = [(6, 5), (5, 6), (4, 5), (5, 4)]"
  by (simp add: abs_pts_def rel_pts_def demo_cell_def cos_3pi_half sin_3pi_half)

lemma retained_demo: "retained demo_cell = [(6, 5), (5, 6), (4, 5), (5, 4)]"
  by (simp add: retained_def abs_pts_demo on_screen_def) (simp add: demo_cell_def)

lemma demo_ruffle_draws: "ruffle_draws script_rng demo_cell [2, 2, 0] = ((2, 3, 0), [])"
  by (simp add: ruffle_draws_def script_rng_def script_next_def uniform_def
      normalvariate_def randint_def demo_cell_def)

lemma demo_sim_init: "MicroscopeSim_init script_rng demo_config 0 = demo_sim"
proof -
  have seed: "rnd_seed script_rng 0 = [1/2, 1/2, 1/2, 0, 0, 2, 0, 0]"
    by (simp add: script_rng_def)
  have ci: "Cell_init script_rng 10 10 1 4 3 80 0.06 0.02 0.05 10 1
      [1/2, 1/2, 1/2, 0, 0, 2, 0, 0] = (demo_cell, [0, 0, 2, 0, 0])"
    by (simp add: Cell_init_def script_rng_def script_next_def uniform_def demo_cell_def
      upt_4 replicate_4)
  have mc: "make_cells script_rng demo_config (Suc 0) [1/2, 1/2, 1/2, 0, 0, 2, 0, 0] =
      ([demo_cell], [0, 0, 2, 0, 0])"
    using ci by (simp add: demo_config_def)
  have nb: "cfg_nb_cells demo_config = Suc 0" "cfg_rng_seed demo_config = 0"
    by (simp_all add: demo_config_def)
  show ?thesis
    unfolding MicroscopeSim_init_def nb seed mc by (simp add: demo_sim_def)
qed

lemma demo_frame:
  "get_frame script_rng empty_mask (1/50) demo_sim =
     Inr (demo_sim\<lparr>rng := [], cells := [demo_result], last_time := 1/50\<rparr>)"
proof -
  have "\<not> mask_any empty_mask" by (simp add: mask_any_def empty_mask_def list_ex_iff)
  moreover have "update_all script_rng (1/50) [demo_cell] [0, 0, 2, 0, 0] = Inr ([demo_result], [])"
    by (simp add: demo_update)
  moreover have "collide_pairs (pairs (length [demo_result])) [demo_result] = Inr [demo_result]"
    by (simp add: pairs_def)
  ultimately show ?thesis
    by (simp add: get_frame_def demo_sim_def)
qed


lemma small_mask_lit: "lit small_mask p \<longleftrightarrow> nat \<lfloor>snd p\<rfloor> = 5 \<and> nat \<lfloor>fst p\<rfloor> = 6"
  by (simp add: lit_def small_mask_def)

lemma demo_hit_vertices: "hit_vertices small_mask demo_cell = [0]"
  by (simp add: hit_vertices_def retained_demo abs_pts_demo select_def small_mask_lit
      on_screen_def upt_4) (simp add: demo_cell_def)

lemma demo_protruded: "protruded small_mask demo_cell = [21 / 20, 1, 1, 1]"
  unfolding protruded_def demo_hit_vertices
  by (simp add: demo_cell_def upt_4 clip_def)

lemma demo_stim_area:
  "polygon_area (abs_pts (demo_cell\<lparr>r := [21 / 20, 1, 1, 1]\<rparr>)) = Inr (41 / 20)"
  by (simp add: polygon_area_def abs_pts_def rel_pts_def demo_cell_def dot_def roll_left_def
      cos_3pi_half sin_3pi_half)

lemma demo_stim_conserve:
  "conserve_area (demo_cell\<lparr>r := [21 / 20, 1, 1, 1]\<rparr>) =
     Inr (demo_cell\<lparr>r := [21 / 20 * sqrt (pi / (41 / 20)), sqrt (pi / (41 / 20)),
                     sqrt (pi / (41 / 20)), sqrt (pi / (41 / 20))]\<rparr>)"
  unfolding conserve_area_def demo_stim_area by (simp add: demo_cell_def)

lemma demo_stimulate: "stimulate small_mask (demo_cell, g) = Inr (demo_stim, g)"
proof -
  have a: "\<not> (\<exists>p\<in>set (retained demo_cell). outside_mask small_mask p)"
    by (simp add: retained_demo outside_mask_def small_mask_def)
  have b: "\<exists>p\<in>set (retained demo_cell). lit small_mask p"
    by (simp add: retained_demo small_mask_lit)
  show ?thesis
    unfolding stimulate_hit_eq [OF a b] demo_protruded demo_stim_conserve demo_hit_vertices
      abs_pts_demo
    by (simp add: mean_def demo_stim_def) (simp add: demo_cell_def)
qed

lemma retained_inside_mask:
  assumes "height c \<le> int (nrows m)" "width c \<le> int (ncols m)" "p \<in> set (retained c)"
  shows "\<not> outside_mask m p"
proof -
  from assms(3) have os: "on_screen c p" by (simp add: retained_def)
  then have "0 \<le> snd p" "snd p < of_int (height c)" "0 \<le> fst p" "fst p < of_int (width c)"
    by (simp_all add: on_screen_def)
  then have "\<lfloor>snd p\<rfloor> < height c" "\<lfloor>fst p\<rfloor> < width c" "0 \<le> \<lfloor>snd p\<rfloor>" "0 \<le> \<lfloor>fst p\<rfloor>"
    by (simp_all add: floor_less_iff)
  with assms(1,2) have "nat \<lfloor>snd p\<rfloor> < nrows m" "nat \<lfloor>fst p\<rfloor> < ncols m"
    by linarith+
  then show ?thesis by (simp add: outside_mask_def not_le)
qed

lemma abs_pts_r_update_ne:
  "abs_pts c \<noteq> [] \<Longrightarrow> length q = length (r c) \<Longrightarrow> abs_pts (c\<lparr>r := q\<rparr>) \<noteq> []"
proof -
  assume a: "abs_pts c \<noteq> []" and l: "length q = length (r c)"
  have "length (abs_pts (c\<lparr>r := q\<rparr>)) = length (abs_pts c)"
    using l by (simp add: abs_pts_length)
  with a show ?thesis by (metis length_0_conv)
qed

section \<open>The claims\<close>

text \<open>
  C8. After every wrap the centre is in the field: \<open>wrap\<close> returns a point of
  \<open>[0, width) \<times> [0, height)\<close> for every real input, negative coordinates included, when
  the field dimensions are positive; the cell an \<open>update\<close> returns has its centre there;
  and a \<open>collide\<close> either leaves both cells as they are or returns both with the
  centre there.
\<close>

theorem center_in_field_after_wrap:
  "(0 < w \<and> 0 < h \<longrightarrow>
      0 \<le> fst (wrap p w h) \<and> fst (wrap p w h) < of_int w \<and>
      0 \<le> snd (wrap p w h) \<and> snd (wrap p w h) < of_int h) \<and>
   (0 < width c \<and> 0 < height c \<and> update ops dt (c, g) = Inr (c', g') \<longrightarrow> in_field c') \<and>
   (0 < width a \<and> 0 < height a \<and> 0 < width b \<and> 0 < height b \<and>
    collide a b = Inr (a', b') \<longrightarrow> (a' = a \<and> b' = b) \<or> (in_field a' \<and> in_field b'))"
  using wrap_range [of w h p] update_in_field [of ops dt c g c' g']
    collide_in_field [of a b a' b'] by blast

theorem center_in_field_after_wrap_witness:
  "(0 \<le> fst (wrap (-3, 12) 10 10) \<and> fst (wrap (-3, 12) 10 10) < 10 \<and>
    0 \<le> snd (wrap (-3, 12) 10 10) \<and> snd (wrap (-3, 12) 10 10) < 10) \<and>
   (update script_rng (1/50) (demo_cell, [0, 0, 2, 0, 0]) = Inr (demo_result, []) \<and>
    in_field demo_result) \<and>
   (collide demo_cell (demo_cell\<lparr>center := (6, 5), vel := (1, 2)\<rparr>) =
      Inr (demo_cell\<lparr>center := (17 / 4, 5)\<rparr>, demo_cell\<lparr>center := (27 / 4, 5)\<rparr>) \<and>
    in_field (demo_cell\<lparr>center := (17 / 4, 5)\<rparr>) \<and>
    in_field (demo_cell\<lparr>center := (27 / 4, 5)\<rparr>))"
proof -
  note inst = center_in_field_after_wrap [of 10 10 "(-3, 12)" demo_cell script_rng "1/50"
        "[0, 0, 2, 0, 0]" demo_result "[]" demo_cell
        "demo_cell\<lparr>center := (6, 5), vel := (1, 2)\<rparr>"
        "demo_cell\<lparr>center := (17 / 4, 5)\<rparr>" "demo_cell\<lparr>center := (27 / 4, 5)\<rparr>"]
  have w: "0 < width demo_cell" "0 < height demo_cell"
    by (simp_all add: demo_cell_def)
  have w': "0 < width (demo_cell\<lparr>center := (6, 5), vel := (1, 2)\<rparr>)"
    "0 < height (demo_cell\<lparr>center := (6, 5), vel := (1, 2)\<rparr>)"
    by (simp_all add: demo_cell_def)
  have ne: "demo_cell\<lparr>center := (17 / 4, 5)\<rparr> \<noteq> demo_cell"
    by (simp add: demo_cell_def)
  have A: "0 \<le> fst (wrap (-3, 12) 10 10) \<and> fst (wrap (-3, 12) 10 10) < 10 \<and>
    0 \<le> snd (wrap (-3, 12) 10 10) \<and> snd (wrap (-3, 12) 10 10) < 10"
    using inst [THEN conjunct1] by simp
  have B: "in_field demo_result"
    using inst [THEN conjunct2, THEN conjunct1] w demo_update by blast
  have C: "in_field (demo_cell\<lparr>center := (17 / 4, 5)\<rparr>) \<and>
    in_field (demo_cell\<lparr>center := (27 / 4, 5)\<rparr>)"
    using inst [THEN conjunct2, THEN conjunct2] w w' demo_collide ne by blast
  from A B C demo_update demo_collide show ?thesis by blast
qed

text \<open>
  C5. \<open>collide\<close> computes what the specification says of \<open>resolveCollision\<close>: for two
  cells with at least one vertex each in a field of non-zero dimensions, the result of
  \<open>collide\<close> is \<open>resolveCollision_spec\<close>, which leaves both cells unchanged when the
  overlap is not positive or the distance is zero and otherwise pushes the centres apart
  by \<open>0.5 * (overlap + 0.5)\<close> along the unit minimum-image displacement, wraps both and
  sets both velocities to zero.
\<close>

theorem collide_refines_spec:
  assumes "width a \<noteq> 0" "height a \<noteq> 0" "r a \<noteq> []" "r b \<noteq> []"
  shows "collide a b = Inr (resolveCollision_spec a b)"
  using assms
  by (simp add: collide_def resolveCollision_spec_def min_image_def Let_def max_list_Max)

theorem collide_refines_spec_witness:
  "collide demo_cell (demo_cell\<lparr>center := (6, 5), vel := (1, 2)\<rparr>) =
     Inr (resolveCollision_spec demo_cell (demo_cell\<lparr>center := (6, 5), vel := (1, 2)\<rparr>)) \<and>
   resolveCollision_spec demo_cell (demo_cell\<lparr>center := (6, 5), vel := (1, 2)\<rparr>) =
     (demo_cell\<lparr>center := (17 / 4, 5)\<rparr>, demo_cell\<lparr>center := (27 / 4, 5)\<rparr>)"
proof -
  have h: "width demo_cell \<noteq> 0" "height demo_cell \<noteq> 0" "r demo_cell \<noteq> []"
    "r (demo_cell\<lparr>center := (6, 5), vel := (1, 2)\<rparr>) \<noteq> []"
    by (simp_all add: demo_cell_def)
  note inst = collide_refines_spec [OF h]
  from inst demo_collide show ?thesis by simp
qed

text \<open>
  C9. \<open>update\<close> with \<open>dt = 0\<close> on a cell as the constructor builds it, with at least
  one vertex: it returns a cell (no exception, so no division by zero and no square root
  of a negative number), the velocity is unchanged, the centre is the wrapped old centre,
  which is the old centre itself when that was in the field.
\<close>

theorem update_dt_zero:
  assumes "wf_cell c" "0 < vertices c"
  shows "\<exists>c' g'. update ops 0 (c, g) = Inr (c', g') \<and> vel c' = vel c \<and>
           center c' = wrap (center c) (width c) (height c) \<and>
           (in_field c \<longrightarrow> center c' = center c)"
proof -
  define c1 where "c1 = c\<lparr>vel := vel c, center := wrap (center c) (width c) (height c)\<rparr>"
  define g1 where "g1 = snd (uniform ops 0 (2 * pi) (snd (normalvariate ops 0 0 g)))"
  have d: "drift ops 0 (c, g) = Inr (c1, g1)"
    unfolding c1_def g1_def by (rule drift_zero)
  obtain c2 g2 where rf: "ruffle ops (c1, g1) = (c2, g2)" by (cases "ruffle ops (c1, g1)")
  have len: "length (r c1) = vertices c" "length (angles c1) = vertices c"
    using wf_cell_lengths [OF assms(1)] by (simp_all add: c1_def)
  have "length (r c2) = vertices c" using ruffle_length [OF rf] len by simp
  moreover have "angles c2 = angles c1" using ruffle_fields [OF rf] by simp
  ultimately have "length (abs_pts (relax_clip c2)) = vertices c"
    using len relax_clip_fields [of c2] by (simp add: abs_pts_length relax_clip_length)
  then have ne: "abs_pts (relax_clip c2) \<noteq> []" using assms(2) by auto
  have "area0 (relax_clip c2) = area0 c"
    using relax_clip_fields [of c2] ruffle_fields [OF rf] by (simp add: c1_def)
  then have "0 \<le> area0 (relax_clip c2)" using wf_cell_area0 [OF assms(1)] by simp
  from conserve_area_ok [OF ne this] obtain c' where ca: "conserve_area (relax_clip c2) = Inr c'" ..
  have u: "update ops 0 (c, g) = Inr (c', g2)"
    by (simp add: update_def d rf ca)
  have v: "vel c' = vel c" and p: "center c' = wrap (center c) (width c) (height c)"
    using conserve_area_fields [OF ca] relax_clip_fields [of c2] ruffle_fields [OF rf]
    by (simp_all add: c1_def)
  from u v p wrap_in_field [of c] show ?thesis by auto
qed

theorem update_dt_zero_witness:
  "wf_cell demo_cell \<and> 0 < vertices demo_cell \<and> in_field demo_cell \<and>
   (\<exists>c' g'. update script_rng 0 (demo_cell, [0, 0, 2, 0, 0]) = Inr (c', g') \<and>
      vel c' = vel demo_cell \<and> center c' = center demo_cell)"
proof -
  have v: "0 < vertices demo_cell" by (simp add: demo_cell_def)
  from update_dt_zero [OF wf_demo_cell v, of script_rng "[0, 0, 2, 0, 0]"] in_field_demo_cell
    wf_demo_cell v
  show ?thesis by blast
qed

text \<open>
  C10. \<open>stimulate\<close> draws nothing from the generator: the state it returns is the state
  it was given, also when vertices are hit, and what it does to the cell does not
  depend on that state. The generator state after a frame is the one the update pass
  reaches from the state at the start of the frame: all draws of a tick are made by
  \<open>update\<close>.
\<close>

theorem stimulate_draws_nothing:
  "(stimulate m (c, g) = Inr (c', g') \<longrightarrow> g' = g) \<and>
   stimulate m (c, g) = map_sum id (\<lambda>p. (fst p, g)) (stimulate m (c, h)) \<and>
   (get_frame ops m' now s = Inr s' \<longrightarrow>
      (\<exists>cs1 cs2. update_all ops (now - last_time s) cs1 (rng s) = Inr (cs2, rng s')))"
proof -
  have "\<exists>cs1 cs2. update_all ops (now - last_time s) cs1 (rng s) = Inr (cs2, rng s')"
    if gf: "get_frame ops m' now s = Inr s'"
  proof -
    from gf obtain cs1 g1 cs2 g2 cs3 where
      st: "(if mask_any m' then stimulate_all m' (cells s) (rng s) else Inr (cells s, rng s))
             = Inr (cs1, g1)" and
      up: "update_all ops (now - last_time s) cs1 g1 = Inr (cs2, g2)" and
      s': "s' = s\<lparr>rng := g2, cells := cs3, last_time := now\<rparr>"
      unfolding get_frame_def Let_def by (auto split: sum.splits prod.splits)
    have "g1 = rng s" using st stimulate_all_generator [of m' "cells s" "rng s" cs1 g1]
      by (auto split: if_splits)
    with up s' show ?thesis by auto
  qed
  with stimulate_rng [of m c g c' g'] stimulate_generator [of m c g h] show ?thesis by blast
qed

theorem stimulate_draws_nothing_witness:
  "stimulate small_mask (demo_cell, [0, 0, 2, 0, 0]) = Inr (demo_stim, [0, 0, 2, 0, 0]) \<and>
   get_frame script_rng empty_mask (1/50) demo_sim =
     Inr (demo_sim\<lparr>rng := [], cells := [demo_result], last_time := 1/50\<rparr>) \<and>
   (\<exists>cs1 cs2. update_all script_rng (1/50 - last_time demo_sim) cs1 (rng demo_sim) =
      Inr (cs2, rng (demo_sim\<lparr>rng := [], cells := [demo_result], last_time := 1/50\<rparr>)))"
proof -
  note inst = stimulate_draws_nothing [of small_mask demo_cell "[0, 0, 2, 0, 0]" demo_stim
      "[0, 0, 2, 0, 0]" "[0, 0, 2, 0, 0]" script_rng empty_mask "1/50" demo_sim
      "demo_sim\<lparr>rng := [], cells := [demo_result], last_time := 1/50\<rparr>"]
  from inst demo_stimulate [of "[0, 0, 2, 0, 0]"] demo_frame show ?thesis by blast
qed

text \<open>
  C3, as amended. After the drift, \<open>update\<close> makes exactly three draws, in this order:
  one standard normal \<open>z\<close>, giving the sample \<open>z * (ruffle_std * base_r)\<close>, one
  \<open>_randbelow(3)\<close> outcome \<open>n\<close>, giving the harmonic \<open>1 + n\<close> in \<open>{1, 2, 3}\<close>, and one
  \<open>random()\<close> outcome \<open>u\<close>, giving the phase \<open>2 * pi * u\<close> in \<open>[0, 2 * pi)\<close>; it adds
  \<open>sample * cos (k * angle + phase)\<close> to every radius, with the one harmonic shared by
  all vertices, before the relaxation, the clamp and the rescale.
\<close>

theorem update_ruffle_harmonic:
  assumes "rng_ok ops" "update ops dt (c, g) = Inr (c', g')"
  shows "\<exists>c1 g1 z ga n gb u.
           drift ops dt (c, g) = Inr (c1, g1) \<and>
           rnd_std_normal ops g1 = (z, ga) \<and> rnd_randbelow ops 3 ga = (n, gb) \<and>
           rnd_random ops gb = (u, g') \<and>
           ruffle_draws ops c1 g1 = ((z * (ruffle_std c * base_r c), 1 + int n, 2 * pi * u), g') \<and>
           1 + int n \<in> {1, 2, 3} \<and> 0 \<le> 2 * pi * u \<and> 2 * pi * u < 2 * pi \<and>
           conserve_area (relax_clip (c1\<lparr>r :=
               map2 (\<lambda>x a. x + z * (ruffle_std c * base_r c) * cos (of_int (1 + int n) * a + 2 * pi * u))
                 (r c) (angles c)\<rparr>)) = Inr c'"
proof -
  from assms(2) obtain c1 g1 c2 where
    d: "drift ops dt (c, g) = Inr (c1, g1)" and
    rf: "ruffle ops (c1, g1) = (c2, g')" and
    ca: "conserve_area (relax_clip c2) = Inr c'"
    by (rule update_steps)
  obtain z ga where z: "rnd_std_normal ops g1 = (z, ga)" by (cases "rnd_std_normal ops g1")
  obtain n gb where n: "rnd_randbelow ops 3 ga = (n, gb)" by (cases "rnd_randbelow ops 3 ga")
  obtain u gc where u: "rnd_random ops gb = (u, gc)" by (cases "rnd_random ops gb")
  have f: "r c1 = r c" "angles c1 = angles c" "base_r c1 = base_r c" "ruffle_std c1 = ruffle_std c"
    using d by (auto simp: drift_def Let_def split: if_splits prod.splits)
  have rd: "ruffle_draws ops c1 g1 = ((z * (ruffle_std c * base_r c), 1 + int n, 2 * pi * u), gc)"
    using ruffle_draws_unfold [OF z n u, of c1] f by simp
  from rf rd have gc: "gc = g'" and c2: "c2 = c1\<lparr>r :=
               map2 (\<lambda>x a. x + z * (ruffle_std c * base_r c) * cos (of_int (1 + int n) * a + 2 * pi * u))
                 (r c) (angles c)\<rparr>"
    by (simp_all add: ruffle_def f)
  have k: "1 + int n \<in> {1, 2, 3}" using rng_ok_randbelow [OF assms(1) n] by auto
  have p: "0 \<le> 2 * pi * u \<and> 2 * pi * u < 2 * pi" using rng_ok_random [OF assms(1) u] by simp
  from d z n u rd k p ca show ?thesis unfolding gc c2 by blast
qed

theorem update_ruffle_harmonic_witness:
  "rng_ok script_rng \<and>
   update script_rng (1/50) (demo_cell, [0, 0, 2, 0, 0]) = Inr (demo_result, []) \<and>
   (\<exists>c1 g1 z ga n gb u.
      drift script_rng (1/50) (demo_cell, [0, 0, 2, 0, 0]) = Inr (c1, g1) \<and>
      rnd_std_normal script_rng g1 = (z, ga) \<and> rnd_randbelow script_rng 3 ga = (n, gb) \<and>
      rnd_random script_rng gb = (u, []) \<and>
      1 + int n \<in> {1, 2, 3} \<and> 0 \<le> 2 * pi * u \<and> 2 * pi * u < 2 * pi)"
proof -
  note inst = update_ruffle_harmonic [OF rng_ok_script demo_update]
  from inst rng_ok_script demo_update show ?thesis by blast
qed

text \<open>
  C3 as stated fails: \<^verbatim>\<open>randint(1, 3)\<close> includes 3. With the scripted outcomes 2, 2, 0
  the harmonic drawn is 3, which is not in \<open>{1, 2}\<close>.
\<close>

theorem harmonic_three_counterexample:
  "ruffle_draws script_rng demo_cell [2, 2, 0] = ((2, 3, 0), []) \<and>
   fst (snd (fst (ruffle_draws script_rng demo_cell [2, 2, 0]))) \<notin> {1, 2}"
  by (simp add: demo_ruffle_draws)

text \<open>
  C7. Two simulators built with the same generator, seed and configuration, at whatever
  clock readings, and fed the same masks and the same elapsed times, give the same
  polygon sets (and the same exception, if one is raised) at every tick.
\<close>

theorem run_deterministic:
  assumes "map fst ins1 = map fst ins2"
    "elapsed t1 (map snd ins1) = elapsed t2 (map snd ins2)"
  shows "run ops (MicroscopeSim_init ops cf t1) ins1 = run ops (MicroscopeSim_init ops cf t2) ins2"
  using run_shift [of ins1 ins2 "MicroscopeSim_init ops cf t1" t2 ops] assms
    init_last_time [of ops cf t2 t1] by simp

theorem run_deterministic_witness:
  "run script_rng (MicroscopeSim_init script_rng demo_config 0) [(empty_mask, 1/50)] =
   run script_rng (MicroscopeSim_init script_rng demo_config 1) [(empty_mask, 51/50)] \<and>
   run script_rng (MicroscopeSim_init script_rng demo_config 0) [(empty_mask, 1/50)] =
     [Inr [(center demo_result, abs_pts demo_result)]]"
proof -
  have a: "map fst [(empty_mask, 1/50 :: real)] = map fst [(empty_mask, 51/50 :: real)]"
    by simp
  have b: "elapsed 0 (map snd [(empty_mask, 1/50 :: real)]) =
           elapsed 1 (map snd [(empty_mask, 51/50 :: real)])"
    by simp
  note inst = run_deterministic [OF a b, of script_rng demo_config]
  have "run script_rng (MicroscopeSim_init script_rng demo_config 0) [(empty_mask, 1/50)] =
     [Inr [(center demo_result, abs_pts demo_result)]]"
    unfolding demo_sim_init by (simp add: demo_frame polygons_def)
  with inst show ?thesis by simp
qed

text \<open>
  C4. For a mask that covers the field, if no vertex position is on the screen, or no
  retained vertex is on a true pixel, \<open>stimulate\<close> returns at once: the cell (velocity,
  radii and centre with it) and the generator state are what they were.
\<close>

theorem stimulate_noop:
  assumes "height c \<le> int (nrows m)" "width c \<le> int (ncols m)"
    "(\<forall>p\<in>set (abs_pts c). \<not> on_screen c p) \<or> (\<forall>p\<in>set (retained c). \<not> lit m p)"
  shows "stimulate m (c, g) = Inr (c, g)"
proof -
  have out: "\<not> (\<exists>p\<in>set (retained c). outside_mask m p)"
    using retained_inside_mask [OF assms(1,2)] by blast
  from assms(3) show ?thesis
  proof
    assume "\<forall>p\<in>set (abs_pts c). \<not> on_screen c p"
    then have "retained c = []" by (simp add: retained_def filter_empty_conv)
    then show ?thesis by (rule stimulate_none_retained)
  next
    assume "\<forall>p\<in>set (retained c). \<not> lit m p"
    then have "\<not> (\<exists>p\<in>set (retained c). lit m p)" by blast
    with out show ?thesis by (rule stimulate_none_lit)
  qed
qed

theorem stimulate_noop_witness:
  "height demo_cell \<le> int (nrows corner_mask) \<and> width demo_cell \<le> int (ncols corner_mask) \<and>
   mask_any corner_mask \<and>
   stimulate corner_mask (demo_cell, [0, 0, 2, 0, 0]) = Inr (demo_cell, [0, 0, 2, 0, 0])"
proof -
  have a: "height demo_cell \<le> int (nrows corner_mask)" "width demo_cell \<le> int (ncols corner_mask)"
    by (simp_all add: demo_cell_def corner_mask_def)
  have b: "(\<forall>p\<in>set (abs_pts demo_cell). \<not> on_screen demo_cell p) \<or>
           (\<forall>p\<in>set (retained demo_cell). \<not> lit corner_mask p)"
    by (simp add: retained_demo lit_def corner_mask_def)
  have c: "mask_any corner_mask"
    by (simp add: mask_any_def corner_mask_def list_ex_iff)
  from stimulate_noop [OF a b, of "[0, 0, 2, 0, 0]"] a c show ?thesis by blast
qed

text \<open>
  C6, as amended. The program never compares the mask's shape with the field. For a cell
  with a non-negative target area, \<open>stimulate\<close> raises exactly when some on-screen
  vertex has a pixel index outside the mask's shape, and the exception is IndexError; in
  every other case it goes on, whatever the mask's shape. \<open>get_frame\<close> skips the
  stimulation for a mask with no true pixel, so that two such masks of any shapes give
  the same frame.
\<close>

theorem stimulate_fails_iff:
  assumes "0 \<le> area0 c"
  shows "(stimulate m (c, g) = Inl e \<longleftrightarrow>
            e = IndexError \<and> (\<exists>p\<in>set (retained c). outside_mask m p)) \<and>
         (\<not> mask_any m1 \<and> \<not> mask_any m2 \<longrightarrow> get_frame ops m1 now s = get_frame ops m2 now s)"
proof -
  have A: "stimulate m (c, g) = Inl e \<longleftrightarrow>
            e = IndexError \<and> (\<exists>p\<in>set (retained c). outside_mask m p)"
  proof (cases "\<exists>p\<in>set (retained c). outside_mask m p")
    case True
    then show ?thesis using stimulate_outside_mask [of c m g] by auto
  next
    case out: False
    show ?thesis
    proof (cases "\<exists>p\<in>set (retained c). lit m p")
      case False
      with out show ?thesis using stimulate_none_lit [of c m g] by auto
    next
      case True
      then have "retained c \<noteq> []" by auto
      then have "abs_pts c \<noteq> []" by (auto simp: retained_def)
      then have ne: "abs_pts (c\<lparr>r := protruded m c\<rparr>) \<noteq> []"
        by (rule abs_pts_r_update_ne) (rule protruded_length)
      have "0 \<le> area0 (c\<lparr>r := protruded m c\<rparr>)" using assms by simp
      from conserve_area_ok [OF ne this] obtain c1 where
        c1: "conserve_area (c\<lparr>r := protruded m c\<rparr>) = Inr c1" ..
      from stimulate_hit [OF out True, of g] c1
      obtain v where "stimulate m (c, g) = Inr (c1\<lparr>vel := v\<rparr>, g)" by auto
      with out show ?thesis by simp
    qed
  qed
  have B: "get_frame ops m1 now s = get_frame ops m2 now s"
    if "\<not> mask_any m1" "\<not> mask_any m2"
    using that by (simp add: get_frame_def)
  from A B show ?thesis by blast
qed

theorem stimulate_fails_iff_witness:
  "0 \<le> area0 demo_cell \<and>
   stimulate \<lparr>nrows = 1, ncols = 1, pixel = (\<lambda>iy ix. True)\<rparr> (demo_cell, [0, 0, 2, 0, 0])
     = Inl IndexError \<and>
   \<not> mask_any empty_mask \<and> \<not> mask_any \<lparr>nrows = 1, ncols = 1, pixel = (\<lambda>iy ix. False)\<rparr> \<and>
   get_frame script_rng empty_mask (1/50) demo_sim =
     get_frame script_rng \<lparr>nrows = 1, ncols = 1, pixel = (\<lambda>iy ix. False)\<rparr> (1/50) demo_sim"
proof -
  have a: "0 \<le> area0 demo_cell" by (simp add: demo_cell_def)
  note inst = stimulate_fails_iff [OF a, of "\<lparr>nrows = 1, ncols = 1, pixel = (\<lambda>iy ix. True)\<rparr>"
      "[0, 0, 2, 0, 0]" IndexError empty_mask
      "\<lparr>nrows = 1, ncols = 1, pixel = (\<lambda>iy ix. False)\<rparr>" script_rng "1/50" demo_sim]
  have b: "\<exists>p\<in>set (retained demo_cell).
             outside_mask \<lparr>nrows = 1, ncols = 1, pixel = (\<lambda>iy ix. True)\<rparr> p"
    by (simp add: retained_demo outside_mask_def)
  have c: "\<not> mask_any empty_mask"
    by (simp add: mask_any_def empty_mask_def list_ex_iff)
  have d: "\<not> mask_any \<lparr>nrows = 1, ncols = 1, pixel = (\<lambda>iy ix. False)\<rparr>"
    by (simp add: mask_any_def list_ex_iff)
  from inst a b c d show ?thesis by blast
qed

text \<open>
  C6 as stated fails: on the 10 by 10 field, the 7 by 7 mask is accepted and vertex 0 is
  stimulated, and a 1 by 1 mask with no true pixel gives an ordinary frame.
\<close>

theorem mismatched_mask_accepted_counterexample:
  "int (nrows small_mask) \<noteq> height demo_cell \<and> int (ncols small_mask) \<noteq> width demo_cell \<and>
   stimulate small_mask (demo_cell, [0, 0, 2, 0, 0]) = Inr (demo_stim, [0, 0, 2, 0, 0]) \<and>
   int (nrows \<lparr>nrows = 1, ncols = 1, pixel = (\<lambda>iy ix. False)\<rparr>) \<noteq> cfg_height (conf demo_sim) \<and>
   get_frame script_rng \<lparr>nrows = 1, ncols = 1, pixel = (\<lambda>iy ix. False)\<rparr> (1/50) demo_sim =
     Inr (demo_sim\<lparr>rng := [], cells := [demo_result], last_time := 1/50\<rparr>)"
proof -
  have d: "\<not> mask_any \<lparr>nrows = 1, ncols = 1, pixel = (\<lambda>iy ix. False)\<rparr>"
    by (simp add: mask_any_def list_ex_iff)
  have c: "\<not> mask_any empty_mask"
    by (simp add: mask_any_def empty_mask_def list_ex_iff)
  have "get_frame script_rng \<lparr>nrows = 1, ncols = 1, pixel = (\<lambda>iy ix. False)\<rparr> (1/50) demo_sim =
        get_frame script_rng empty_mask (1/50) demo_sim"
    using c d by (simp add: get_frame_def)
  moreover have "int (nrows small_mask) \<noteq> height demo_cell"
    "int (ncols small_mask) \<noteq> width demo_cell"
    by (simp_all add: small_mask_def demo_cell_def)
  moreover have "cfg_height (conf demo_sim) = 10" by (simp add: demo_sim_def demo_config_def)
  ultimately show ?thesis using demo_stimulate [of "[0, 0, 2, 0, 0]"] demo_frame by simp
qed

end
